theory Spec2Isabelle
  imports Main "HOL-Library.Sublist"
begin

section \<open>Data model\<close>

text \<open>
  The extraction library's data classes, as the sources under verification use them:
  a character interval with optional bounds, an extraction (the spec's span) with a
  class, a text, an optional interval and free-form attributes, and the annotated
  document an extraction call returns. Attributes are opaque to the code; they are
  kept as an association list.
\<close>

record CharInterval =
  start_pos :: "int option"
  end_pos :: "int option"

record Extraction =
  extraction_class :: string
  extraction_text :: string
  char_interval :: "CharInterval option"
  attributes :: "(string \<times> string) list"

record AnnotatedDocument =
  doc_text :: "string option"
  extractions :: "Extraction list option"

text \<open>An exception raised by the extraction call, identified by its message.\<close>

type_synonym exn = string

text \<open>
  The external extraction function \<open>lx.extract\<close>, with the configuration fixed:
  from the submitted text to the document it returns (\<open>Inr\<close>) or the exception it
  raises (\<open>Inl\<close>).
\<close>

type_synonym extract_fn = "string \<Rightarrow> exn + AnnotatedDocument"

text \<open>Python's \<open>x or []\<close> on an optional list.\<close>

definition or_empty :: "'a list option \<Rightarrow> 'a list" where
  "or_empty xs = (case xs of None \<Rightarrow> [] | Some ys \<Rightarrow> ys)"

section \<open>The merge step of \<open>StreamExtractor\<close>\<close>

text \<open>
  \<open>overlaps\<close> and \<open>key\<close> are the two local functions of \<open>StreamExtractor._merge\<close>
  (the same \<open>key\<close> is repeated as \<open>k\<close> in \<open>push\<close> and \<open>flush\<close>).
\<close>

type_synonym ident_key = "string \<times> string \<times> int option \<times> int option"

definition overlaps :: "Extraction \<Rightarrow> Extraction \<Rightarrow> bool" where
  "overlaps a b =
     (case (char_interval a, char_interval b) of
        (Some ca, Some cb) \<Rightarrow>
          (case (start_pos ca, end_pos ca, start_pos cb, end_pos cb) of
             (Some s1, Some e1, Some s2, Some e2) \<Rightarrow> s1 < e2 \<and> s2 < e1
           | _ \<Rightarrow> False)
      | _ \<Rightarrow> False)"

definition key :: "Extraction \<Rightarrow> ident_key" where
  "key e =
     (let ci = char_interval e;
          s = (case ci of Some c \<Rightarrow> start_pos c | None \<Rightarrow> None);
          t = (case ci of Some c \<Rightarrow> end_pos c | None \<Rightarrow> None)
      in (extraction_class e, extraction_text e, s, t))"

text \<open>
  The loop of \<open>_merge\<close>: the state is the list \<open>merged\<close> and the key set
  \<open>existing\<close>; a candidate whose key is known or that overlaps a merged extraction
  is skipped (\<open>continue\<close>), any other is appended and its key recorded.
\<close>

fun merge_loop ::
  "Extraction list \<Rightarrow> ident_key set \<Rightarrow> Extraction list \<Rightarrow> Extraction list" where
  "merge_loop merged existing [] = merged"
| "merge_loop merged existing (ex # new) =
     (let k = key ex in
      if k \<in> existing then merge_loop merged existing new
      else if list_ex (overlaps ex) merged then merge_loop merged existing new
      else merge_loop (merged @ [ex]) (insert k existing) new)"

definition merge :: "Extraction list \<Rightarrow> Extraction list \<Rightarrow> Extraction list" where
  "merge first new = merge_loop first (key ` set first) new"

section \<open>\<open>StreamExtractor\<close>: the incremental extractor\<close>

text \<open>Python's \<open>sep.join(xs)\<close>, and the line separator \<open>"\n"\<close>.\<close>

fun join :: "string \<Rightarrow> string list \<Rightarrow> string" where
  "join sep [] = []"
| "join sep [x] = x"
| "join sep (x # y # ys) = x @ sep @ join sep (y # ys)"

definition nl :: string where
  "nl = [CHR 0x0A]"

text \<open>\<open>sum(len(c) for c in self._buffer)\<close>.\<close>

definition buffer_size :: "string list \<Rightarrow> int" where
  "buffer_size cs = sum_list (map (\<lambda>c. int (length c)) cs)"

text \<open>
  The mutable fields of a \<open>StreamExtractor\<close>. The provider settings only reach
  \<open>lx.extract\<close>; they are part of the \<open>extract_fn\<close> every operation is given.
\<close>

record StreamExtractor =
  max_char_buffer :: int
  buffer :: "string list"
  transcript :: "string list"
  merged :: "Extraction list"

text \<open>The constructor: empty buffer, transcript and merged list.\<close>

definition new_extractor :: "int \<Rightarrow> StreamExtractor" where
  "new_extractor m = \<lparr>max_char_buffer = m, buffer = [], transcript = [], merged = []\<rparr>"

text \<open>
  \<open>delta = [e for e in new_list if k(e) not in prev_keys]\<close> with
  \<open>prev_keys = {k(e) for e in self._merged}\<close>, as \<open>push\<close> and \<open>flush\<close> both compute it.
\<close>

definition delta_of :: "Extraction list \<Rightarrow> Extraction list \<Rightarrow> Extraction list" where
  "delta_of prior new_list =
     (let prev_keys = key ` set prior in filter (\<lambda>e. key e \<notin> prev_keys) new_list)"

text \<open>
  An operation returns three things: the value it returns or the exception it lets
  escape, the extractor afterwards, and the texts it submitted to \<open>lx.extract\<close>
  (in call order). There is no \<open>try\<close> in \<open>push\<close> or \<open>flush\<close>: an exception of
  \<open>lx.extract\<close> leaves the method at the call, with the assignments before it done and
  those after it not.

  \<open>push\<close> returns an iterator over a list holding the delta when it is non-empty, and
  over nothing otherwise; the iterator is modelled by the list it runs over.
\<close>

definition push ::
  "extract_fn \<Rightarrow> string \<Rightarrow> StreamExtractor
     \<Rightarrow> (exn + Extraction list list) \<times> StreamExtractor \<times> string list" where
  "push ex chunk s =
     (if chunk = [] then (Inr [], s, [])
      else
        let s1 = s\<lparr>buffer := buffer s @ [chunk], transcript := transcript s @ [chunk]\<rparr> in
        if buffer_size (buffer s1) < max_char_buffer s1 div 2 then (Inr [], s1, [])
        else
          let full_text = join nl (transcript s1) in
          case ex full_text of
            Inl e \<Rightarrow> (Inl e, s1, [full_text])
          | Inr doc \<Rightarrow>
              let new_list = or_empty (extractions doc);
                  delta = delta_of (merged s1) new_list;
                  s2 = s1\<lparr>merged := merge (merged s1) new_list, buffer := []\<rparr>
              in (Inr (if delta \<noteq> [] then [delta] else []), s2, [full_text]))"

definition flush ::
  "extract_fn \<Rightarrow> StreamExtractor
     \<Rightarrow> (exn + Extraction list) \<times> StreamExtractor \<times> string list" where
  "flush ex s =
     (if buffer s = [] then (Inr [], s, [])
      else
        let full_text = join nl (transcript s) in
        case ex full_text of
          Inl e \<Rightarrow> (Inl e, s, [full_text])
        | Inr doc \<Rightarrow>
            let new_list = or_empty (extractions doc);
                delta = delta_of (merged s) new_list;
                s2 = s\<lparr>merged := merge (merged s) new_list, buffer := []\<rparr>
            in (Inr delta, s2, [full_text]))"

text \<open>
  A session of the extractor: a sequence of calls, each with the behaviour of the
  external extraction function at that moment. \<open>emitted\<close> collects the spans of all
  the deltas handed back, in order; a call that raises hands back nothing.
\<close>

datatype op = Push string | Flush

fun run_op ::
  "extract_fn \<times> op \<Rightarrow> StreamExtractor \<Rightarrow> Extraction list \<times> StreamExtractor" where
  "run_op (ex, Push chunk) s =
     (case push ex chunk s of
        (Inr ds, s', _) \<Rightarrow> (concat ds, s')
      | (Inl e, s', _) \<Rightarrow> ([], s'))"
| "run_op (ex, Flush) s =
     (case flush ex s of
        (Inr d, s', _) \<Rightarrow> (d, s')
      | (Inl e, s', _) \<Rightarrow> ([], s'))"

fun emitted :: "(extract_fn \<times> op) list \<Rightarrow> StreamExtractor \<Rightarrow> Extraction list" where
  "emitted [] s = []"
| "emitted (c # cs) s = (case run_op c s of (d, s') \<Rightarrow> d @ emitted cs s')"

fun final_state :: "(extract_fn \<times> op) list \<Rightarrow> StreamExtractor \<Rightarrow> StreamExtractor" where
  "final_state [] s = s"
| "final_state (c # cs) s = final_state cs (snd (run_op c s))"

text \<open>Some pair of positions of a list holds two overlapping extractions.\<close>

fun has_overlap :: "Extraction list \<Rightarrow> bool" where
  "has_overlap [] = False"
| "has_overlap (x # xs) = (list_ex (overlaps x) xs \<or> has_overlap xs)"

section \<open>Flattening chat messages\<close>

text \<open>
  \<open>str.isspace\<close> on the code points below 256, and \<open>str.strip()\<close>. A character of
  the model is one code point.
\<close>

definition isspace :: "char \<Rightarrow> bool" where
  "isspace c =
     (let n = (of_char c :: nat)
      in (9 \<le> n \<and> n \<le> 13) \<or> (28 \<le> n \<and> n \<le> 32) \<or> n = 133 \<or> n = 160)"

definition strip :: "string \<Rightarrow> string" where
  "strip s = rev (dropWhile isspace (rev (dropWhile isspace s)))"

text \<open>Python's \<open>x or d\<close> on an optional string: \<open>None\<close> and \<open>""\<close> are both falsy.\<close>

definition or_str :: "string option \<Rightarrow> string \<Rightarrow> string" where
  "or_str x d = (case x of None \<Rightarrow> d | Some v \<Rightarrow> if v = [] then d else v)"

text \<open>A chat message: a dictionary in which \<open>role\<close> and \<open>content\<close> may be absent.\<close>

record message =
  role :: "string option"
  content :: "string option"

fun flatten_loop :: "string list \<Rightarrow> message list \<Rightarrow> string list" where
  "flatten_loop lines [] = lines"
| "flatten_loop lines (m # ms) =
     (let r = or_str (role m) ''user'';
          c = strip (or_str (content m) [])
      in if c = [] then flatten_loop lines ms
         else flatten_loop (lines @ [r @ '': '' @ c]) ms)"

definition flatten_chat_messages :: "message list \<Rightarrow> string" where
  "flatten_chat_messages messages = join nl (flatten_loop [] messages)"

section \<open>The JSON shape of a span\<close>

text \<open>
  Both servers send an extraction as the same five fields (\<open>ExtractionSpan\<close> in the
  REST application, a dictionary in the WebSocket one).
\<close>

record ExtractionSpan =
  span_class :: string
  span_text :: string
  char_start :: "int option"
  char_end :: "int option"
  span_attributes :: "(string \<times> string) list"

definition to_span :: "Extraction \<Rightarrow> ExtractionSpan" where
  "to_span e =
     \<lparr>span_class = extraction_class e,
      span_text = extraction_text e,
      char_start = (case char_interval e of Some ci \<Rightarrow> start_pos ci | None \<Rightarrow> None),
      char_end = (case char_interval e of Some ci \<Rightarrow> end_pos ci | None \<Rightarrow> None),
      span_attributes = attributes e\<rparr>"

section \<open>The WebSocket session\<close>

text \<open>
  An inbound frame is text that is not JSON, or a JSON object, of which the loop reads
  the truthiness of \<open>eot\<close> and the fields \<open>type\<close>, \<open>role\<close> and \<open>content\<close>
  (strings when present).
\<close>

datatype frame =
  InvalidJson
| Payload (f_eot: bool) (f_type: "string option") (f_role: "string option")
    (f_content: "string option")

text \<open>The frames the server sends, by their \<open>type\<close> field.\<close>

datatype outcome =
  InfoMsg string
| ErrorMsg string
| EotAck
| WarnMsg string
| StatusMsg string
| ResultMsg string "string option" "ExtractionSpan list"

text \<open>
  One round of the \<open>while True\<close> loop of \<open>ws_endpoint\<close>: the frames sent, the list
  \<open>conversation_messages\<close> afterwards, and the texts submitted to extraction.
  The append to the history is inside the \<open>try\<close>, before the call: it stays when
  the call raises.
\<close>

definition ws_frame ::
  "bool \<Rightarrow> extract_fn \<Rightarrow> message list \<Rightarrow> frame
     \<Rightarrow> outcome list \<times> message list \<times> string list" where
  "ws_frame aggregate ex conv fr =
     (case fr of
        InvalidJson \<Rightarrow> ([ErrorMsg ''invalid json''], conv, [])
      | Payload eot ty ro co \<Rightarrow>
          if eot \<or> ty = Some ''eot''
          then ([EotAck], (if aggregate then [] else conv), [])
          else
            let r0 = strip (or_str ro ''user'');
                r = (if r0 = [] then ''user'' else r0);
                c = strip (or_str co [])
            in if c = [] then ([WarnMsg ''empty content''], conv, [])
               else
                 let conv' = (if aggregate
                              then conv @ [\<lparr>role = Some r, content = Some c\<rparr>] else conv);
                     txt = (if aggregate then flatten_chat_messages conv' else c)
                 in case ex txt of
                      Inl e \<Rightarrow> ([StatusMsg ''processing'', ErrorMsg e], conv', [txt])
                    | Inr doc \<Rightarrow>
                        ([StatusMsg ''processing'',
                          ResultMsg (if aggregate then ''aggregate_result'' else ''result'')
                            (doc_text doc) (map to_span (or_empty (extractions doc)))],
                         conv', [txt]))"

text \<open>
  The loop over the frames of one connection, each with the behaviour of the
  extraction function at that moment; the history starts empty.
\<close>

fun ws_loop ::
  "bool \<Rightarrow> message list \<Rightarrow> (extract_fn \<times> frame) list
     \<Rightarrow> outcome list \<times> message list \<times> string list" where
  "ws_loop aggregate conv [] = ([], conv, [])"
| "ws_loop aggregate conv ((ex, fr) # rest) =
     (case ws_frame aggregate ex conv fr of
        (out, conv', calls) \<Rightarrow>
          (case ws_loop aggregate conv' rest of
             (outs, conv'', calls') \<Rightarrow> (out @ outs, conv'', calls @ calls')))"

section \<open>The REST endpoint\<close>

record Message =
  msg_role :: string
  msg_content :: string

definition model_dump :: "Message \<Rightarrow> message" where
  "model_dump m = \<lparr>role = Some (msg_role m), content = Some (msg_content m)\<rparr>"

datatype http_error = HTTPException int string

record ExtractResponse =
  resp_model_id :: string
  resp_text :: string
  resp_extractions :: "ExtractionSpan list"

text \<open>
  \<open>extract_endpoint\<close>: the response or the HTTP error, and the texts submitted to
  extraction.
\<close>

definition extract_endpoint ::
  "extract_fn \<Rightarrow> string \<Rightarrow> Message list \<Rightarrow> (http_error + ExtractResponse) \<times> string list" where
  "extract_endpoint ex mid messages =
     (if messages = [] then (Inl (HTTPException 400 ''messages must be provided''), [])
      else
        let txt = flatten_chat_messages (map model_dump messages) in
        case ex txt of
          Inl e \<Rightarrow> (Inl (HTTPException 500 e), [txt])
        | Inr result \<Rightarrow>
            (Inr \<lparr>resp_model_id = mid,
                  resp_text = or_str (doc_text result) txt,
                  resp_extractions = map to_span (or_empty (extractions result))\<rparr>,
             [txt]))"

section \<open>Sample data\<close>

text \<open>
  Three spans over the text \<open>hello world\<close>: \<open>hello\<close> at [0,5), \<open>ell\<close> at [1,4)
  inside it, and \<open>world\<close> at [6,11); an extraction function that echoes the text
  it is given and returns a fixed span list, and one that always raises.
\<close>

definition span_hello :: Extraction where
  "span_hello = \<lparr>extraction_class = ''greeting'', extraction_text = ''hello'',
     char_interval = Some \<lparr>start_pos = Some 0, end_pos = Some 5\<rparr>, attributes = []\<rparr>"

definition span_ell :: Extraction where
  "span_ell = \<lparr>extraction_class = ''fragment'', extraction_text = ''ell'',
     char_interval = Some \<lparr>start_pos = Some 1, end_pos = Some 4\<rparr>, attributes = []\<rparr>"

definition span_world :: Extraction where
  "span_world = \<lparr>extraction_class = ''noun'', extraction_text = ''world'',
     char_interval = Some \<lparr>start_pos = Some 6, end_pos = Some 11\<rparr>, attributes = []\<rparr>"

definition echo_extract :: "Extraction list \<Rightarrow> extract_fn" where
  "echo_extract spans t = Inr \<lparr>doc_text = Some t, extractions = Some spans\<rparr>"

definition failing_extract :: "exn \<Rightarrow> extract_fn" where
  "failing_extract e t = Inl e"

text \<open>
  Frames of a WebSocket session: two turns and a reset signal.
\<close>

definition turn_hello :: frame where
  "turn_hello = Payload False None (Some ''user'') (Some ''hello'')"

definition turn_again :: frame where
  "turn_again = Payload False None None (Some ''again'')"

definition reset_frame :: frame where
  "reset_frame = Payload True None None None"

section \<open>Properties of the merge step\<close>

lemma merge_loop_snoc:
  "existing = key ` set acc \<Longrightarrow>
   merge_loop acc existing (xs @ [x]) =
     (let r = merge_loop acc existing xs in
      if key x \<in> key ` set r \<or> list_ex (overlaps x) r then r else r @ [x])"
proof (induction xs arbitrary: acc existing)
  case Nil
  then show ?case by (simp add: Let_def)
next
  case (Cons y ys)
  have inv: "insert (key y) existing = key ` set (acc @ [y])"
    using Cons.prems by simp
  show ?case
    using Cons.IH [OF Cons.prems] Cons.IH [OF inv]
    by (simp add: Let_def)
qed

lemma merge_loop_prefix:
  "\<exists>ys. merge_loop acc existing xs = acc @ ys \<and> subseq ys xs"
proof (induction xs arbitrary: acc existing)
  case Nil
  show ?case by simp
next
  case (Cons y ys)
  obtain a where a: "merge_loop acc existing ys = acc @ a" "subseq a ys"
    using Cons.IH by blast
  obtain b where b: "merge_loop (acc @ [y]) (insert (key y) existing) ys = (acc @ [y]) @ b"
      "subseq b ys"
    using Cons.IH by blast
  show ?case
    using a b by (auto simp: Let_def)
qed

lemma overlaps_iff:
  "overlaps a b \<longleftrightarrow>
     (\<exists>ca cb s1 e1 s2 e2. char_interval a = Some ca \<and> char_interval b = Some cb \<and>
        start_pos ca = Some s1 \<and> end_pos ca = Some e1 \<and>
        start_pos cb = Some s2 \<and> end_pos cb = Some e2 \<and> s1 < e2 \<and> s2 < e1)"
  by (auto simp: overlaps_def split: option.splits)

text \<open>
  Claim C2. \<open>merge accepted candidates\<close> is \<open>accepted\<close> followed by a subsequence
  of the candidates; it is built candidate by candidate, in input order: a candidate
  is appended to the result built so far exactly when its identity key
  (class, text, interval start, interval end) is not the key of a span of that result
  and it overlaps no span of that result. Two spans overlap exactly when both have an
  interval with both bounds and \<open>s1 < e2\<close> and \<open>s2 < e1\<close>.
\<close>

theorem merge_contract:
  "merge accepted [] = accepted
   \<and> merge accepted (cands @ [c]) =
       (let r = merge accepted cands in
        if key c \<in> key ` set r \<or> list_ex (overlaps c) r then r else r @ [c])
   \<and> (\<exists>ys. merge accepted cands = accepted @ ys \<and> subseq ys cands)
   \<and> (overlaps a b \<longleftrightarrow>
        (\<exists>ca cb s1 e1 s2 e2. char_interval a = Some ca \<and> char_interval b = Some cb \<and>
           start_pos ca = Some s1 \<and> end_pos ca = Some e1 \<and>
           start_pos cb = Some s2 \<and> end_pos cb = Some e2 \<and> s1 < e2 \<and> s2 < e1))
   \<and> key c = (extraction_class c, extraction_text c,
        (case char_interval c of None \<Rightarrow> None | Some ci \<Rightarrow> start_pos ci),
        (case char_interval c of None \<Rightarrow> None | Some ci \<Rightarrow> end_pos ci))"
proof -
  have 1: "merge accepted [] = accepted"
    by (simp add: merge_def)
  have 2: "merge accepted (cands @ [c]) =
       (let r = merge accepted cands in
        if key c \<in> key ` set r \<or> list_ex (overlaps c) r then r else r @ [c])"
    unfolding merge_def by (rule merge_loop_snoc) simp
  have 3: "\<exists>ys. merge accepted cands = accepted @ ys \<and> subseq ys cands"
    unfolding merge_def by (rule merge_loop_prefix)
  have 5: "key c = (extraction_class c, extraction_text c,
        (case char_interval c of None \<Rightarrow> None | Some ci \<Rightarrow> start_pos ci),
        (case char_interval c of None \<Rightarrow> None | Some ci \<Rightarrow> end_pos ci))"
    by (simp add: key_def Let_def split: option.splits)
  from 1 2 3 overlaps_iff [of a b] 5 show ?thesis by blast
qed

text \<open>Unfolding rules for evaluating the model on the sample data.\<close>

lemmas span_defs = span_hello_def span_ell_def span_world_def
lemmas eval_defs = merge_def key_def overlaps_def delta_of_def or_empty_def buffer_size_def
  nl_def new_extractor_def echo_extract_def failing_extract_def Let_def

theorem merge_contract_witness:
  "merge [span_hello] ([span_ell] @ [span_world]) = [span_hello, span_world]
   \<and> overlaps span_ell span_hello \<and> \<not> overlaps span_world span_hello"
  using merge_contract [of "[span_hello]" "[span_ell]" span_world span_ell span_hello]
  by (simp add: span_defs eval_defs)

section \<open>Properties of \<open>push\<close> and \<open>flush\<close>\<close>

text \<open>
  Claim C6. \<open>flush\<close> on an extractor whose pending buffer is empty returns the empty
  list, submits nothing to the extraction function and leaves the extractor as it was.
  Hence a flush that follows a flush that returned is such a no-op, whatever the
  extraction function would do.
\<close>

theorem flush_idempotent:
  "(buffer s = [] \<longrightarrow> flush ex s = (Inr [], s, []))
   \<and> (flush ex s = (Inr d, s', calls) \<longrightarrow> flush ex' s' = (Inr [], s', []))"
  by (auto simp: flush_def Let_def split: if_splits sum.splits)

theorem flush_idempotent_witness:
  "flush (echo_extract [span_hello]) (new_extractor 10) = (Inr [], new_extractor 10, [])
   \<and> flush (echo_extract [span_hello]) (new_extractor 10\<lparr>buffer := [''hello''], transcript := [''hello'']\<rparr>)
       = (Inr [span_hello], new_extractor 10\<lparr>transcript := [''hello''], merged := [span_hello]\<rparr>, [''hello''])
   \<and> flush (failing_extract ''boom'') (new_extractor 10\<lparr>transcript := [''hello''], merged := [span_hello]\<rparr>)
       = (Inr [], new_extractor 10\<lparr>transcript := [''hello''], merged := [span_hello]\<rparr>, [])"
proof -
  have a: "buffer (new_extractor 10) = []" by (simp add: new_extractor_def)
  have b: "flush (echo_extract [span_hello]) (new_extractor 10\<lparr>buffer := [''hello''], transcript := [''hello'']\<rparr>)
       = (Inr [span_hello], new_extractor 10\<lparr>transcript := [''hello''], merged := [span_hello]\<rparr>, [''hello''])"
    by (simp add: flush_def eval_defs)
  show ?thesis
    using a b
      flush_idempotent [where s = "new_extractor 10" and ex = "echo_extract [span_hello]"]
      flush_idempotent [where s = "new_extractor 10\<lparr>buffer := [''hello''], transcript := [''hello'']\<rparr>"
        and ex = "echo_extract [span_hello]" and d = "[span_hello]"
        and s' = "new_extractor 10\<lparr>transcript := [''hello''], merged := [span_hello]\<rparr>"
        and calls = "[''hello'']" and ex' = "failing_extract ''boom''"]
    by simp
qed


lemma buffer_size_snoc: "buffer_size (cs @ [c]) = buffer_size cs + int (length c)"
  by (simp add: buffer_size_def)

lemma flush_calls:
  "buffer s \<noteq> [] \<Longrightarrow> snd (snd (flush ex s)) = [join nl (transcript s)]"
  by (simp add: flush_def Let_def split: sum.splits)

lemma push_calls_triggered:
  "chunk \<noteq> [] \<Longrightarrow> max_char_buffer s div 2 \<le> buffer_size (buffer s @ [chunk]) \<Longrightarrow>
   snd (snd (push ex chunk s)) = [join nl (transcript s @ [chunk])]"
  by (simp add: push_def Let_def split: sum.splits)

lemma push_calls_any:
  "snd (snd (push ex chunk s)) = [] \<or>
   snd (snd (push ex chunk s)) = [join nl (transcript s @ [chunk])]"
  by (simp add: push_def Let_def split: sum.splits)

text \<open>
  Claim C7. \<open>push\<close> of a non-empty fragment appends it to the transcript and to the
  pending buffer, whose total size grows by the fragment's length. While that size is
  below \<open>max_char_buffer // 2\<close> (the integer half of the threshold, as the code
  divides), the call returns nothing and submits nothing to the extraction function.
  At or above it, the call submits exactly one text, the whole transcript joined by
  line separators, and, when the extraction returns, the pending buffer is empty
  afterwards.
\<close>

theorem push_threshold:
  assumes "chunk \<noteq> []"
  shows "let s1 = s\<lparr>buffer := buffer s @ [chunk], transcript := transcript s @ [chunk]\<rparr>;
             full_text = join nl (transcript s1);
             s' = fst (snd (push ex chunk s))
         in buffer_size (buffer s1) = buffer_size (buffer s) + int (length chunk)
          \<and> (buffer_size (buffer s1) < max_char_buffer s div 2 \<longrightarrow>
               push ex chunk s = (Inr [], s1, []))
          \<and> (max_char_buffer s div 2 \<le> buffer_size (buffer s1) \<longrightarrow>
               snd (snd (push ex chunk s)) = [full_text]
               \<and> transcript s' = transcript s1
               \<and> (\<forall>doc. ex full_text = Inr doc \<longrightarrow> buffer s' = []))"
  using assms
  by (auto simp: push_def Let_def buffer_size_snoc split: sum.splits)

theorem push_threshold_witness:
  "push (failing_extract ''boom'') ''ABC'' (new_extractor 10)
     = (Inr [], new_extractor 10\<lparr>buffer := [''ABC''], transcript := [''ABC'']\<rparr>, [])
   \<and> snd (snd (push (echo_extract [span_hello])  ''DEF''
        (new_extractor 10\<lparr>buffer := [''ABC''], transcript := [''ABC'']\<rparr>)))
       = [''ABC'' @ nl @ ''DEF'']
   \<and> buffer (fst (snd (push (echo_extract [span_hello]) ''DEF''
        (new_extractor 10\<lparr>buffer := [''ABC''], transcript := [''ABC'']\<rparr>)))) = []"
proof -
  have ne: "''ABC'' \<noteq> []" "''DEF'' \<noteq> []" by simp_all
  show ?thesis
    using push_threshold [OF ne(1), where s = "new_extractor 10" and ex = "failing_extract ''boom''"]
      push_threshold [OF ne(2), where s = "new_extractor 10\<lparr>buffer := [''ABC''], transcript := [''ABC'']\<rparr>"
        and ex = "echo_extract [span_hello]"]
    by (simp add: Let_def new_extractor_def buffer_size_def echo_extract_def)
qed

text \<open>
  Claim C8. When the extraction function raises during a triggered \<open>push\<close> or a
  \<open>flush\<close>, the call fails with that very exception, and the extractor keeps its
  transcript, pending buffer and merged list (for \<open>push\<close>, with the fragment
  appended to the first two). The next \<open>flush\<close> then submits the same text again;
  the next \<open>push\<close> of a non-empty fragment submits the transcript with that fragment
  added (after a failed \<open>flush\<close>, when it reaches the threshold).
\<close>

theorem extraction_failure_keeps_state:
  "(chunk \<noteq> [] \<and> max_char_buffer s div 2 \<le> buffer_size (buffer s @ [chunk])
      \<and> ex (join nl (transcript s @ [chunk])) = Inl e
    \<longrightarrow> (let s1 = s\<lparr>buffer := buffer s @ [chunk], transcript := transcript s @ [chunk]\<rparr>
         in push ex chunk s = (Inl e, s1, [join nl (transcript s1)])
          \<and> snd (snd (flush ex' s1)) = [join nl (transcript s1)]
          \<and> (c \<noteq> [] \<longrightarrow> snd (snd (push ex' c s1)) = [join nl (transcript s1 @ [c])])))
   \<and> (buffer s \<noteq> [] \<and> ex (join nl (transcript s)) = Inl e
    \<longrightarrow> flush ex s = (Inl e, s, [join nl (transcript s)])
      \<and> snd (snd (flush ex' s)) = [join nl (transcript s)]
      \<and> (snd (snd (push ex' c s)) = [] \<or>
          snd (snd (push ex' c s)) = [join nl (transcript s @ [c])]))"
proof -
  have A: "push ex chunk s = (Inl e, s\<lparr>buffer := buffer s @ [chunk], transcript := transcript s @ [chunk]\<rparr>,
             [join nl (transcript s @ [chunk])])"
    if "chunk \<noteq> []" "max_char_buffer s div 2 \<le> buffer_size (buffer s @ [chunk])"
       "ex (join nl (transcript s @ [chunk])) = Inl e"
    using that by (simp add: push_def Let_def)
  have B: "snd (snd (push ex' c (s\<lparr>buffer := buffer s @ [chunk], transcript := transcript s @ [chunk]\<rparr>)))
             = [join nl (transcript s @ [chunk] @ [c])]"
    if "c \<noteq> []" "max_char_buffer s div 2 \<le> buffer_size (buffer s @ [chunk])"
  proof -
    have "max_char_buffer s div 2 \<le> buffer_size ((buffer s @ [chunk]) @ [c])"
      using that(2) by (simp only: buffer_size_snoc [of "buffer s @ [chunk]" c])
    then show ?thesis
      using push_calls_triggered [OF that(1), of "s\<lparr>buffer := buffer s @ [chunk], transcript := transcript s @ [chunk]\<rparr>" ex']
      by simp
  qed
  have C: "flush ex s = (Inl e, s, [join nl (transcript s)])"
    if "buffer s \<noteq> []" "ex (join nl (transcript s)) = Inl e"
    using that by (simp add: flush_def Let_def)
  show ?thesis
    using A B C flush_calls [of s ex']
      flush_calls [of "s\<lparr>buffer := buffer s @ [chunk], transcript := transcript s @ [chunk]\<rparr>" ex']
      push_calls_any [of ex' c s]
    by (simp add: Let_def)
qed

theorem extraction_failure_keeps_state_witness:
  "push (failing_extract ''boom'') ''hello'' (new_extractor 10)
     = (Inl ''boom'', new_extractor 10\<lparr>buffer := [''hello''], transcript := [''hello'']\<rparr>,
        [''hello''])
   \<and> snd (snd (flush (echo_extract [span_hello])
        (new_extractor 10\<lparr>buffer := [''hello''], transcript := [''hello'']\<rparr>))) = [''hello'']
   \<and> flush (failing_extract ''boom'')
        (new_extractor 10\<lparr>buffer := [''hi''], transcript := [''hi'']\<rparr>)
     = (Inl ''boom'', new_extractor 10\<lparr>buffer := [''hi''], transcript := [''hi'']\<rparr>, [''hi''])"
  using extraction_failure_keeps_state [where chunk = "''hello''" and s = "new_extractor 10"
      and ex = "failing_extract ''boom''" and e = "''boom''"
      and ex' = "echo_extract [span_hello]" and c = "''world''"]
    extraction_failure_keeps_state [where chunk = "''hello''"
      and s = "new_extractor 10\<lparr>buffer := [''hi''], transcript := [''hi'']\<rparr>"
      and ex = "failing_extract ''boom''" and e = "''boom''"
      and ex' = "echo_extract [span_hello]" and c = "''world''"]
  by (simp add: Let_def new_extractor_def buffer_size_def failing_extract_def)

section \<open>What the extractor keeps and what it hands back\<close>

text \<open>
  The merged list of an extractor never holds two spans with one identity key, nor two
  overlapping spans: \<open>merge\<close> preserves both, and every operation changes the merged
  list through \<open>merge\<close> only.
\<close>

lemma overlaps_sym: "overlaps a b = overlaps b a"
  by (auto simp: overlaps_def split: option.splits)

lemma has_overlap_snoc:
  "has_overlap (xs @ [x]) = (has_overlap xs \<or> list_ex (overlaps x) xs)"
  by (induction xs) (auto simp: overlaps_sym [of x])

lemma merge_loop_invariant:
  "existing = key ` set acc \<Longrightarrow> distinct (map key acc) \<Longrightarrow> \<not> has_overlap acc \<Longrightarrow>
   distinct (map key (merge_loop acc existing xs)) \<and> \<not> has_overlap (merge_loop acc existing xs)"
proof (induction xs arbitrary: acc existing)
  case Nil
  then show ?case by simp
next
  case (Cons y ys)
  show ?case
  proof (cases "key y \<in> existing \<or> list_ex (overlaps y) acc")
    case True
    then show ?thesis
      using Cons.IH [OF Cons.prems] by (auto simp: Let_def)
  next
    case False
    have "insert (key y) existing = key ` set (acc @ [y])"
      using Cons.prems(1) by simp
    moreover have "distinct (map key (acc @ [y]))"
      using False Cons.prems(1,2) by simp
    moreover have "\<not> has_overlap (acc @ [y])"
      using False Cons.prems(3) by (simp add: has_overlap_snoc)
    ultimately show ?thesis
      using False Cons.IH [of "insert (key y) existing" "acc @ [y]"] by (simp add: Let_def)
  qed
qed

lemma merge_invariant:
  "distinct (map key acc) \<Longrightarrow> \<not> has_overlap acc \<Longrightarrow>
   distinct (map key (merge acc new)) \<and> \<not> has_overlap (merge acc new)"
  unfolding merge_def by (rule merge_loop_invariant) simp_all

lemma run_op_merged_invariant:
  "distinct (map key (merged s)) \<Longrightarrow> \<not> has_overlap (merged s) \<Longrightarrow>
   distinct (map key (merged (snd (run_op c s)))) \<and> \<not> has_overlap (merged (snd (run_op c s)))"
proof (cases c)
  case (Pair ex o1)
  assume a: "distinct (map key (merged s))" "\<not> has_overlap (merged s)"
  show ?thesis
  proof (cases o1)
    case (Push chunk)
    then show ?thesis
      using a Pair merge_invariant [OF a]
      by (auto simp: push_def Let_def split: sum.splits)
  next
    case Flush
    then show ?thesis
      using a Pair merge_invariant [OF a]
      by (auto simp: flush_def Let_def split: sum.splits)
  qed
qed

lemma session_merged_invariant:
  "distinct (map key (merged s)) \<Longrightarrow> \<not> has_overlap (merged s) \<Longrightarrow>
   distinct (map key (merged (final_state cs s))) \<and> \<not> has_overlap (merged (final_state cs s))"
proof (induction cs arbitrary: s)
  case Nil
  then show ?case by simp
next
  case (Cons c cs)
  show ?case
    using Cons.IH [of "snd (run_op c s)"] run_op_merged_invariant [OF Cons.prems, of c]
    by simp
qed

text \<open>
  Every span \<open>merge\<close> appends is in the delta the operations hand back; the delta may
  hold more (the candidates \<open>merge\<close> rejected for an overlap or a repeated key).
\<close>

lemma merge_loop_appended_new:
  "key ` set acc \<subseteq> existing \<Longrightarrow> merge_loop acc existing xs = acc @ ys \<Longrightarrow>
   set ys \<subseteq> {x \<in> set xs. key x \<notin> key ` set acc}"
proof (induction xs arbitrary: acc existing ys)
  case Nil
  then show ?case by simp
next
  case (Cons y xs)
  show ?case
  proof (cases "key y \<in> existing \<or> list_ex (overlaps y) acc")
    case True
    then have "merge_loop acc existing xs = acc @ ys"
      using Cons.prems(2) by (auto simp: Let_def split: if_splits)
    from Cons.IH [OF Cons.prems(1) this] show ?thesis by auto
  next
    case False
    then have m: "merge_loop (acc @ [y]) (insert (key y) existing) xs = acc @ ys"
      using Cons.prems(2) by (simp add: Let_def)
    obtain zs where zs: "merge_loop (acc @ [y]) (insert (key y) existing) xs = (acc @ [y]) @ zs"
      using merge_loop_prefix by blast
    have ys: "ys = y # zs" using m zs by simp
    have "key ` set (acc @ [y]) \<subseteq> insert (key y) existing"
      using Cons.prems(1) by auto
    from Cons.IH [OF this zs] have "set zs \<subseteq> {x \<in> set xs. key x \<notin> key ` set (acc @ [y])}" .
    moreover have "key y \<notin> key ` set acc" using False Cons.prems(1) by auto
    ultimately show ?thesis using ys by auto
  qed
qed

lemma merge_appended_in_delta:
  "merge acc new = acc @ ys \<Longrightarrow> set ys \<subseteq> set (delta_of acc new)"
  using merge_loop_appended_new [of acc "key ` set acc" new ys]
  by (auto simp: merge_def delta_of_def Let_def)

text \<open>Unfolding rules for running the extractor on the sample data.\<close>

lemmas sx_eval = push_def flush_def span_defs eval_defs

text \<open>
  Claim C1 (the code departs from it). The list \<open>push\<close> and \<open>flush\<close> hand back is
  \<open>delta_of\<close>: the candidates whose key is not in the merged list before the call,
  filtered before and independently of \<open>merge\<close>. On a fresh extractor with threshold
  10, when the extraction over \<open>hello\<close> finds \<open>hello\<close> at [0,5) and \<open>ell\<close> at [1,4),
  \<open>push\<close> hands back both spans, although \<open>merge\<close> rejected the second for
  overlapping the first: the merged list afterwards holds the first only.
\<close>

theorem push_returns_rejected_span:
  "push (echo_extract [span_hello, span_ell]) ''hello'' (new_extractor 10) =
     (Inr [[span_hello, span_ell]],
      new_extractor 10\<lparr>transcript := [''hello''], merged := [span_hello]\<rparr>,
      [''hello''])"
  by (simp add: sx_eval)

text \<open>
  Claim C3 (the code departs from it). A span that \<open>merge\<close> rejected never enters the
  merged list, so its key stays new: when two triggered pushes both find \<open>hello\<close> at
  [0,5) and \<open>ell\<close> at [1,4), the span \<open>ell\<close> is handed back by both, and the spans
  emitted over the session hold the same identity key twice.
\<close>

theorem emitted_repeats_key:
  "emitted [(echo_extract [span_hello, span_ell], Push ''hello''),
            (echo_extract [span_hello, span_ell], Push ''world'')] (new_extractor 10)
     = [span_hello, span_ell, span_ell]
   \<and> \<not> distinct (map key [span_hello, span_ell, span_ell])"
  by (simp add: sx_eval)

text \<open>
  Claim C4 (the code departs from it). With threshold 100, a push of \<open>hello\<close> stays
  below the bound and the flush after it runs the extraction; the delta handed back
  holds \<open>hello\<close> at [0,5) and \<open>ell\<close> at [1,4), two spans that overlap.
\<close>

theorem emitted_overlapping_spans:
  "emitted [(echo_extract [span_hello, span_ell], Push ''hello''),
            (echo_extract [span_hello, span_ell], Flush)] (new_extractor 100)
     = [span_hello, span_ell]
   \<and> overlaps span_hello span_ell"
  by (simp add: sx_eval)

section \<open>Properties of the WebSocket session\<close>

text \<open>\<open>strip\<close> is idempotent: flattening strips again a content the loop has stripped.\<close>

lemma dropWhile_rev_prefix:
  "\<exists>w. t = rev (dropWhile P (rev t)) @ w"
proof -
  have "rev (takeWhile P (rev t) @ dropWhile P (rev t)) = t"
    by (simp only: takeWhile_dropWhile_id rev_rev_ident)
  then have "t = rev (dropWhile P (rev t)) @ rev (takeWhile P (rev t))"
    by (simp only: rev_append)
  then show ?thesis ..
qed

lemma strip_idem: "strip (strip s) = strip s"
proof -
  define t where "t = dropWhile isspace s"
  define u where "u = rev (dropWhile isspace (rev t))"
  obtain w where w: "t = u @ w"
    unfolding u_def using dropWhile_rev_prefix [of t isspace] by blast
  have t_hd: "t = [] \<or> \<not> isspace (hd t)"
    unfolding t_def by (metis hd_dropWhile)
  have u_hd: "u = [] \<or> \<not> isspace (hd u)"
    using t_hd w by (cases u) auto
  have "dropWhile isspace (rev u) = rev u"
    unfolding u_def by simp
  moreover have "dropWhile isspace u = u"
    using u_hd by (cases u) auto
  ultimately have "strip u = u"
    by (simp add: strip_def)
  then show ?thesis
    by (simp add: strip_def t_def u_def)
qed

lemma flatten_single:
  "r \<noteq> [] \<Longrightarrow> strip c \<noteq> [] \<Longrightarrow>
   flatten_chat_messages [\<lparr>role = Some r, content = Some (strip c)\<rparr>] = r @ '': '' @ strip c"
  by (simp add: flatten_chat_messages_def or_str_def Let_def strip_idem)

text \<open>
  Claim C5, as amended. In aggregate mode, a turn with non-blank content is appended to
  the history, the history flattened from scratch is submitted to the extraction
  function, and on success the session sends a \<open>processing\<close> status and then an
  \<open>aggregate_result\<close> carrying the text of the returned document and every span of
  that document: the full result of the extraction over the whole conversation. The
  session keeps no merged set and computes no delta.
\<close>

theorem ws_aggregate_result_full:
  assumes "\<not> eot" and "ty \<noteq> Some ''eot''" and "strip (or_str co []) \<noteq> []"
    and "conv' = conv @ [\<lparr>role = Some (if strip (or_str ro ''user'') = [] then ''user''
                                         else strip (or_str ro ''user'')),
                          content = Some (strip (or_str co []))\<rparr>]"
    and "ex (flatten_chat_messages conv') = Inr doc"
  shows "ws_frame True ex conv (Payload eot ty ro co) =
           ([StatusMsg ''processing'',
             ResultMsg ''aggregate_result'' (doc_text doc)
               (map to_span (or_empty (extractions doc)))],
            conv', [flatten_chat_messages conv'])"
  using assms by (simp add: ws_frame_def Let_def)

text \<open>Unfolding rules for running a session on the sample frames.\<close>

lemmas ws_eval = ws_frame_def turn_hello_def turn_again_def reset_frame_def or_str_def strip_def
  isspace_def flatten_chat_messages_def echo_extract_def or_empty_def to_span_def Let_def

theorem ws_aggregate_result_full_witness:
  "ws_frame True (echo_extract [span_hello])
       [\<lparr>role = Some ''user'', content = Some ''hello''\<rparr>] turn_again =
     ([StatusMsg ''processing'',
       ResultMsg ''aggregate_result'' (Some (''user: hello'' @ nl @ ''user: again''))
         [to_span span_hello]],
      [\<lparr>role = Some ''user'', content = Some ''hello''\<rparr>,
       \<lparr>role = Some ''user'', content = Some ''again''\<rparr>],
      [''user: hello'' @ nl @ ''user: again''])"
  using ws_aggregate_result_full [where eot = False and ty = None and co = "Some ''again''"
      and ro = None and conv = "[\<lparr>role = Some ''user'', content = Some ''hello''\<rparr>]"
      and conv' = "[\<lparr>role = Some ''user'', content = Some ''hello''\<rparr>,
                   \<lparr>role = Some ''user'', content = Some ''again''\<rparr>]"
      and ex = "echo_extract [span_hello]"
      and doc = "\<lparr>doc_text = Some (''user: hello'' @ nl @ ''user: again''),
                  extractions = Some [span_hello]\<rparr>"]
  by (simp add: ws_eval)

text \<open>
  Claim C5 as stated fails. Two turns of one aggregate session, the extraction finding
  the span \<open>hello\<close> at [0,5) both times: the second \<open>aggregate_result\<close> carries that
  span again, although the first one had already delivered it.
\<close>

theorem ws_aggregate_repeats_spans:
  "fst (ws_loop True [] [(echo_extract [span_hello], turn_hello),
                         (echo_extract [span_hello], turn_again)]) =
     [StatusMsg ''processing'',
      ResultMsg ''aggregate_result'' (Some ''user: hello'') [to_span span_hello],
      StatusMsg ''processing'',
      ResultMsg ''aggregate_result'' (Some (''user: hello'' @ nl @ ''user: again''))
        [to_span span_hello]]"
  by (simp add: ws_eval)

text \<open>
  Claim C9. In aggregate mode a reset signal (a truthy \<open>eot\<close>, or \<open>type\<close> equal to
  \<open>eot\<close>) is acknowledged without an extraction call and empties the turn history,
  which is all the state the session has; the loop goes on, and serves the frames after
  the reset exactly as a fresh connection would, whatever the history was. So the text
  submitted for the next turn is that turn's line \<open>role: content\<close> alone, and on
  success its result carries every span of the returned document, spans sent before
  the reset included.
\<close>

theorem reset_starts_fresh_session:
  assumes "eot \<or> ty = Some ''eot''"
  shows "ws_frame True ex conv (Payload eot ty ro co) = ([EotAck], [], [])
   \<and> ws_loop True conv ((ex, Payload eot ty ro co) # rest) =
       (case ws_loop True [] rest of (outs, c, calls) \<Rightarrow> (EotAck # outs, c, calls))
   \<and> (\<not> eot' \<and> ty' \<noteq> Some ''eot'' \<and> strip (or_str co' []) \<noteq> [] \<longrightarrow>
        snd (snd (ws_frame True ex' [] (Payload eot' ty' ro' co')))
          = [(if strip (or_str ro' ''user'') = [] then ''user'' else strip (or_str ro' ''user''))
               @ '': '' @ strip (or_str co' [])]
        \<and> (\<forall>doc. ex' ((if strip (or_str ro' ''user'') = [] then ''user''
                          else strip (or_str ro' ''user'')) @ '': '' @ strip (or_str co' []))
                     = Inr doc \<longrightarrow>
               fst (ws_frame True ex' [] (Payload eot' ty' ro' co')) =
                 [StatusMsg ''processing'',
                  ResultMsg ''aggregate_result'' (doc_text doc)
                    (map to_span (or_empty (extractions doc)))]))"
proof -
  have 1: "ws_frame True ex conv (Payload eot ty ro co) = ([EotAck], [], [])"
    using assms by (auto simp: ws_frame_def)
  have 2: "ws_loop True conv ((ex, Payload eot ty ro co) # rest) =
       (case ws_loop True [] rest of (outs, c, calls) \<Rightarrow> (EotAck # outs, c, calls))"
    by (simp add: 1 split: prod.splits)
  have 3: "\<not> eot' \<and> ty' \<noteq> Some ''eot'' \<and> strip (or_str co' []) \<noteq> [] \<longrightarrow>
        snd (snd (ws_frame True ex' [] (Payload eot' ty' ro' co')))
          = [(if strip (or_str ro' ''user'') = [] then ''user'' else strip (or_str ro' ''user''))
               @ '': '' @ strip (or_str co' [])]
        \<and> (\<forall>doc. ex' ((if strip (or_str ro' ''user'') = [] then ''user''
                          else strip (or_str ro' ''user'')) @ '': '' @ strip (or_str co' []))
                     = Inr doc \<longrightarrow>
               fst (ws_frame True ex' [] (Payload eot' ty' ro' co')) =
                 [StatusMsg ''processing'',
                  ResultMsg ''aggregate_result'' (doc_text doc)
                    (map to_span (or_empty (extractions doc)))])"
  proof (intro impI)
    assume a: "\<not> eot' \<and> ty' \<noteq> Some ''eot'' \<and> strip (or_str co' []) \<noteq> []"
    define r where "r = (if strip (or_str ro' ''user'') = [] then ''user''
                         else strip (or_str ro' ''user''))"
    have r: "r \<noteq> []" by (simp add: r_def)
    have t: "flatten_chat_messages [\<lparr>role = Some r, content = Some (strip (or_str co' []))\<rparr>]
               = r @ '': '' @ strip (or_str co' [])"
      using r a by (simp add: flatten_single)
    show "snd (snd (ws_frame True ex' [] (Payload eot' ty' ro' co')))
          = [(if strip (or_str ro' ''user'') = [] then ''user'' else strip (or_str ro' ''user''))
               @ '': '' @ strip (or_str co' [])]
        \<and> (\<forall>doc. ex' ((if strip (or_str ro' ''user'') = [] then ''user''
                          else strip (or_str ro' ''user'')) @ '': '' @ strip (or_str co' []))
                     = Inr doc \<longrightarrow>
               fst (ws_frame True ex' [] (Payload eot' ty' ro' co')) =
                 [StatusMsg ''processing'',
                  ResultMsg ''aggregate_result'' (doc_text doc)
                    (map to_span (or_empty (extractions doc)))])"
      using a t unfolding r_def [symmetric]
      by (auto simp: ws_frame_def Let_def r_def [symmetric] split: sum.splits)
  qed
  from 1 2 3 show ?thesis by blast
qed

theorem reset_starts_fresh_session_witness:
  "ws_loop True [] [(echo_extract [span_hello], turn_hello),
                    (echo_extract [span_hello], reset_frame),
                    (echo_extract [span_hello], turn_again)] =
     ([StatusMsg ''processing'',
       ResultMsg ''aggregate_result'' (Some ''user: hello'') [to_span span_hello],
       EotAck,
       StatusMsg ''processing'',
       ResultMsg ''aggregate_result'' (Some ''user: again'') [to_span span_hello]],
      [\<lparr>role = Some ''user'', content = Some ''again''\<rparr>],
      [''user: hello'', ''user: again''])"
proof -
  have r: "True \<or> None = Some ''eot''" by simp
  show ?thesis
    using reset_starts_fresh_session [OF r, where ex = "echo_extract [span_hello]"
        and conv = "[\<lparr>role = Some ''user'', content = Some ''hello''\<rparr>]"
        and ro = None and co = None
        and rest = "[(echo_extract [span_hello], turn_again)]"
        and eot' = False and ty' = None and ro' = None and co' = "Some ''again''"
        and ex' = "echo_extract [span_hello]"]
    by (simp add: ws_eval)
qed

section \<open>Properties of the REST endpoint\<close>

lemma flatten_loop_eq:
  "flatten_loop acc ms =
     acc @ map (\<lambda>m. or_str (role m) ''user'' @ '': '' @ strip (or_str (content m) []))
             (filter (\<lambda>m. strip (or_str (content m) []) \<noteq> []) ms)"
  by (induction ms arbitrary: acc) (simp_all add: Let_def)

text \<open>
  Claim C10. A request with no messages is answered with HTTP 400,
  \<open>messages must be provided\<close>, and nothing is submitted to the extraction function.
  The flattened text is the lines \<open>role: content\<close>, joined by line separators, of the
  messages whose content is not blank after trimming, in order, with the content
  trimmed and \<open>user\<close> for a role that is missing or empty; a non-empty request
  submits exactly that text.
\<close>

theorem rest_empty_request_and_flatten:
  "extract_endpoint ex mid [] = (Inl (HTTPException 400 ''messages must be provided''), [])
   \<and> flatten_chat_messages ms =
       join nl (map (\<lambda>m. (case role m of None \<Rightarrow> ''user''
                              | Some r \<Rightarrow> if r = [] then ''user'' else r)
                          @ '': '' @ strip (or_str (content m) []))
                    (filter (\<lambda>m. strip (or_str (content m) []) \<noteq> []) ms))
   \<and> (messages \<noteq> [] \<longrightarrow>
        snd (extract_endpoint ex mid messages)
          = [flatten_chat_messages (map model_dump messages)])"
proof -
  have 1: "extract_endpoint ex mid [] = (Inl (HTTPException 400 ''messages must be provided''), [])"
    by (simp add: extract_endpoint_def)
  have r: "or_str x ''user'' = (case x of None \<Rightarrow> ''user'' | Some r \<Rightarrow> if r = [] then ''user'' else r)"
    for x by (simp add: or_str_def)
  have 2: "flatten_chat_messages ms =
       join nl (map (\<lambda>m. (case role m of None \<Rightarrow> ''user''
                              | Some r \<Rightarrow> if r = [] then ''user'' else r)
                          @ '': '' @ strip (or_str (content m) []))
                    (filter (\<lambda>m. strip (or_str (content m) []) \<noteq> []) ms))"
    unfolding flatten_chat_messages_def flatten_loop_eq r by simp
  have 3: "messages \<noteq> [] \<longrightarrow>
        snd (extract_endpoint ex mid messages)
          = [flatten_chat_messages (map model_dump messages)]"
    by (simp add: extract_endpoint_def Let_def split: sum.splits)
  from 1 2 3 show ?thesis by blast
qed

theorem rest_empty_request_and_flatten_witness:
  "extract_endpoint (echo_extract [span_hello]) ''m'' []
     = (Inl (HTTPException 400 ''messages must be provided''), [])
   \<and> flatten_chat_messages
        [\<lparr>role = None, content = Some '' hello ''\<rparr>,
         \<lparr>role = Some ''assistant'', content = Some ''  ''\<rparr>,
         \<lparr>role = Some ''assistant'', content = Some ''world''\<rparr>]
       = ''user: hello'' @ nl @ ''assistant: world''
   \<and> snd (extract_endpoint (echo_extract [span_hello]) ''m''
        [\<lparr>msg_role = '''', msg_content = ''hello''\<rparr>]) = [''user: hello'']"
proof -
  have ne: "[\<lparr>msg_role = '''', msg_content = ''hello''\<rparr>] \<noteq> []" by simp
  show ?thesis
    using rest_empty_request_and_flatten [where ex = "echo_extract [span_hello]" and mid = "''m''"
        and ms = "[\<lparr>role = None, content = Some '' hello ''\<rparr>,
         \<lparr>role = Some ''assistant'', content = Some ''  ''\<rparr>,
         \<lparr>role = Some ''assistant'', content = Some ''world''\<rparr>]"
        and messages = "[\<lparr>msg_role = '''', msg_content = ''hello''\<rparr>]"] ne
      rest_empty_request_and_flatten [where ex = "echo_extract [span_hello]" and mid = "''m''"
        and ms = "map model_dump [\<lparr>msg_role = '''', msg_content = ''hello''\<rparr>]"
        and messages = "[\<lparr>msg_role = '''', msg_content = ''hello''\<rparr>]"]
    by (simp add: or_str_def strip_def isspace_def model_dump_def)
qed

end
